theory Spec2Isabelle
  imports Main "HOL-Library.Word" "HOL-Library.Log_Nat"
begin

unbundle bit_operations_syntax

section \<open>Machine arithmetic of the target\<close>

text \<open>
  The firmware runs on an ESP32-S3: \<open>int\<close> and \<open>esp_err_t\<close> are 32-bit two's
  complement, \<open>uint8_t\<close> is an 8-bit word, \<open>float\<close> is IEEE 754 binary32 and
  \<open>double\<close> is binary64, both rounded to nearest, ties to even. A signed result that
  does not fit 32 bits is undefined behaviour in C; the model makes it the value
  \<open>None\<close>.
\<close>

type_synonym c_int = "32 word"

definition c_int_of :: "int \<Rightarrow> c_int option" where
  "c_int_of k = (if - 2147483648 \<le> k \<and> k \<le> 2147483647 then Some (word_of_int k) else None)"

text \<open>\<open>a - b\<close> on two \<open>int\<close> operands.\<close>

definition int_sub :: "c_int \<Rightarrow> c_int \<Rightarrow> c_int option" where
  "int_sub a b = c_int_of (sint a - sint b)"

subsection \<open>Rounding to binary32 and binary64\<close>

text \<open>
  Finite floating-point values are the rationals they denote. \<open>rne\<close> rounds a
  rational to the nearest integer, a tie going to the even neighbour. \<open>ilog2 x\<close> is the
  binary exponent of a positive \<open>x\<close>: the \<open>e\<close> with \<open>2^e \<le> x < 2^(e+1)\<close>. \<open>fl p x\<close> is the
  value with a \<open>p\<close>-bit significand nearest to \<open>x\<close>. The exponent is not bounded in
  \<open>fl\<close>: the quantities rounded by \<open>raw_ADC_to_LED_val\<close> are zero or of magnitude
  between \<open>2^-12\<close> and \<open>2^20\<close> (lemma \<open>quotient_normal\<close> below), where both formats are
  normal and neither overflow nor gradual underflow occurs.
\<close>

definition rne :: "rat \<Rightarrow> int" where
  "rne x = (let f = \<lfloor>x\<rfloor>; d = x - of_int f
            in if d < 1 / 2 then f else if 1 / 2 < d then f + 1
               else if even f then f else f + 1)"

definition ilog2 :: "rat \<Rightarrow> int" where
  "ilog2 x = (case quotient_of x of (a, b) \<Rightarrow>
      (let d = bitlen a - bitlen b in if 2 powi d \<le> x then d else d - 1))"

definition fl :: "nat \<Rightarrow> rat \<Rightarrow> rat" where
  "fl p x = (if x = 0 then 0
             else (let u = 2 powi (ilog2 \<bar>x\<bar> - int p + 1)
                   in of_int (rne (x / u)) * u))"

definition to_double :: "rat \<Rightarrow> rat" where
  "to_double x = fl 53 x"

definition to_float :: "rat \<Rightarrow> rat" where
  "to_float x = fl 24 x"

text \<open>
  Conversion of a floating-point value to \<open>int\<close> drops the fraction (towards zero); it is
  undefined when the integral part does not fit.
\<close>

definition float_to_int :: "rat \<Rightarrow> c_int option" where
  "float_to_int x = c_int_of (if 0 \<le> x then \<lfloor>x\<rfloor> else \<lceil>x\<rceil>)"

subsection \<open>Floating-point operands that may be infinite or NaN\<close>

text \<open>
  The angle and the speed come from sensors, so they may be any binary32 value. An
  ordered comparison with a NaN operand is false.
\<close>

datatype c_float = NaN | NInf | Fin rat | PInf

fun float_lt :: "c_float \<Rightarrow> c_float \<Rightarrow> bool" where
  "float_lt NaN b = False"
| "float_lt a NaN = False"
| "float_lt PInf b = False"
| "float_lt a NInf = False"
| "float_lt NInf b = True"
| "float_lt a PInf = True"
| "float_lt (Fin a) (Fin b) = (a < b)"

fun float_le :: "c_float \<Rightarrow> c_float \<Rightarrow> bool" where
  "float_le NaN b = False"
| "float_le a NaN = False"
| "float_le NInf b = True"
| "float_le a PInf = True"
| "float_le PInf b = False"
| "float_le a NInf = False"
| "float_le (Fin a) (Fin b) = (a \<le> b)"

definition float_gt :: "c_float \<Rightarrow> c_float \<Rightarrow> bool" where
  "float_gt a b = float_lt b a"

definition float_ge :: "c_float \<Rightarrow> c_float \<Rightarrow> bool" where
  "float_ge a b = float_le b a"

section \<open>The brightness map (main.c, \<open>raw_ADC_to_LED_val\<close>)\<close>

text \<open>
  \<^verbatim>\<open>float intermediate = (raw_ADC_reading - 500)/2598.0;\<close> subtracts in \<open>int\<close>, divides
  in \<open>double\<close> and stores a \<open>float\<close>. \<^verbatim>\<open>intermediate > 1\<close> compares floats;
  \<^verbatim>\<open>intermediate < 0.1\<close> compares against the \<open>double\<close> nearest to one tenth, and
  \<^verbatim>\<open>intermediate = 0.1\<close> stores that \<open>double\<close> as a \<open>float\<close>. The product with 1023 is a
  \<open>float\<close> product, converted to \<open>int\<close> by the return.
\<close>

definition raw_ADC_to_LED_val :: "c_int \<Rightarrow> c_int option" where
  "raw_ADC_to_LED_val raw_ADC_reading =
     (case int_sub raw_ADC_reading 500 of
        None \<Rightarrow> None
      | Some diff \<Rightarrow>
          (let intermediate = to_float (to_double (of_int (sint diff) / 2598));
               intermediate = (if 1 < intermediate then 1 else intermediate);
               intermediate = (if intermediate < to_double (1 / 10)
                               then to_float (to_double (1 / 10)) else intermediate)
           in float_to_int (to_float (intermediate * 1023))))"

text \<open>
  Two names for intermediate quantities of \<open>raw_ADC_to_LED_val\<close>, used in the proofs:
  the stored quotient and the quotient after both clamps, as functions of the
  difference \<open>raw_ADC_reading - 500\<close>.
\<close>

definition scaled_reading :: "int \<Rightarrow> rat" where
  "scaled_reading n = to_float (to_double (of_int n / 2598))"

definition led_fraction :: "int \<Rightarrow> rat" where
  "led_fraction n =
     (let i = (if 1 < scaled_reading n then 1 else scaled_reading n)
      in if i < to_double (1 / 10) then to_float (to_double (1 / 10)) else i)"

section \<open>The level monitor (main.c, \<open>is_out_of_level\<close>)\<close>

text \<open>
  \<^verbatim>\<open>parameters.h\<close> is not among the sources: its macros \<open>threshold_angle\<close>,
  \<open>lower_speed\<close> and \<open>upper_speed\<close> are parameters of the model, each the value its
  comparison sees after the usual arithmetic conversions. The C library is not among the
  sources either: \<open>sqrt_sum_pow2 x y\<close> stands for the \<open>float\<close> that
  \<^verbatim>\<open>sqrt(pow(x, 2) + pow(y, 2))\<close> yields, whatever the library computes.
\<close>

record parameters =
  threshold_angle :: c_float
  lower_speed :: c_float
  upper_speed :: c_float
  sqrt_sum_pow2 :: "c_float \<Rightarrow> c_float \<Rightarrow> c_float"

text \<open>The two components of \<open>bno055_vec3_t\<close> that \<open>is_out_of_level\<close> reads.\<close>

record bno055_vec3_t =
  vec_x :: c_float
  vec_y :: c_float

text \<open>The enumeration \<open>out_of_level_t\<close> of main.h; the variable holding it is a \<open>uint8_t\<close>.\<close>

definition initial_state :: "8 word" where
  "initial_state = 1"

definition threshold_angle_and_speed :: "8 word" where
  "threshold_angle_and_speed = 2"

datatype switch_label = Case_initial_state | Case_threshold_angle_and_speed | Case_default

definition switch_on :: "8 word \<Rightarrow> switch_label" where
  "switch_on s =
     (if s = initial_state then Case_initial_state
      else if s = threshold_angle_and_speed then Case_threshold_angle_and_speed
      else Case_default)"

text \<open>
  \<^verbatim>\<open>if(state == 0) state = initial_state;\<close>: the static variable starts at zero.
\<close>

definition first_entry :: "8 word \<Rightarrow> 8 word" where
  "first_entry s = (if s = 0 then initial_state else s)"

text \<open>
  \<open>is_out_of_level\<close> takes the static \<open>state\<close> as an argument and returns it, updated,
  beside the result.
\<close>

definition is_out_of_level ::
  "parameters \<Rightarrow> 8 word \<Rightarrow> bno055_vec3_t \<Rightarrow> c_float \<Rightarrow> bool \<times> 8 word" where
  "is_out_of_level P s angle speed =
     (let combined_angle = sqrt_sum_pow2 P (vec_x angle) (vec_y angle);
          s = first_entry s
      in case switch_on s of
           Case_initial_state \<Rightarrow>
             (if float_ge combined_angle (threshold_angle P) \<and>
                 (float_ge speed (lower_speed P) \<and> float_le speed (upper_speed P))
              then (True, threshold_angle_and_speed)
              else (False, s))
         | Case_threshold_angle_and_speed \<Rightarrow>
             (if float_lt combined_angle (threshold_angle P) \<and>
                 (float_lt speed (lower_speed P) \<and> float_gt speed (upper_speed P))
              then (False, initial_state)
              else (True, s))
         | Case_default \<Rightarrow> (False, s))"

text \<open>
  Successive calls, the static state threaded from one to the next. Each call is recorded
  with the state it found, the value it returned and the state it left.
\<close>

record level_call =
  entry_state :: "8 word"
  returned :: bool
  exit_state :: "8 word"

fun level_calls ::
  "parameters \<Rightarrow> 8 word \<Rightarrow> (bno055_vec3_t \<times> c_float) list \<Rightarrow> level_call list" where
  "level_calls P s [] = []"
| "level_calls P s ((angle, speed) # rest) =
     (case is_out_of_level P s angle speed of
        (out_of_level, s') \<Rightarrow>
          \<lparr>entry_state = s, returned = out_of_level, exit_state = s'\<rparr> # level_calls P s' rest)"

section \<open>The alarm timer callback (led.c, \<open>led_alarm_handler\<close>)\<close>

text \<open>
  The variables of the firmware: the static \<open>state\<close> of \<open>is_out_of_level\<close>, the static
  \<open>led_toggle\<close> of the callback, the three locals of \<open>app_main\<close> that the callback
  reaches through \<open>timer_event_handler_args_t\<close>, and the duty last handed to
  \<open>ledc_set_duty\<close>. The driver calls of the callback are taken to succeed
  (\<open>ESP_ERROR_CHECK\<close> aborts the firmware otherwise).
\<close>

record machine =
  static_state :: "8 word"
  led_toggle :: "8 word"
  is_led_on :: bool
  led_on :: bool
  led_on_val :: c_int
  duty :: c_int

definition led_alarm_handler :: "machine \<Rightarrow> machine" where
  "led_alarm_handler m =
     (let toggle = (if led_toggle m = 0 then 1 else led_toggle m)
      in if led_on m then
           (if drop_bit 1 toggle \<noteq> 0
            then m\<lparr>led_toggle := toggle XOR 2, is_led_on := True, duty := led_on_val m\<rparr>
            else m\<lparr>led_toggle := toggle XOR 2, is_led_on := False, duty := 0\<rparr>)
         else m\<lparr>led_toggle := toggle, is_led_on := False, duty := 0\<rparr>)"

section \<open>The control loop and its exit path (main.c, \<open>app_main\<close>)\<close>

text \<open>
  One iteration of the loop reads the sensors, and the timer alarm and the speed
  callback interrupt it. Its inputs are what the environment supplies: how many timer
  alarms are handled before the test of \<open>is_led_on\<close> and how many between the brightness
  update and the assignment to \<open>led_on\<close>, the value \<open>photoresist_read\<close> returns when it
  is called, the angle \<open>bno055_get_euler\<close> stores and the speed found in \<open>speed\<close>.
\<close>

record tick_input =
  alarms_before :: nat
  tick_light :: c_int
  alarms_during :: nat
  tick_angle :: bno055_vec3_t
  tick_speed :: c_float

text \<open>
  What one iteration did: the value of \<open>is_led_on\<close> its test read, the light reading it
  took (if any), \<open>led_on_val\<close> before and after, and the value assigned to \<open>led_on\<close>.
\<close>

record tick_obs =
  led_was_on :: bool
  light_read :: "c_int option"
  brightness_before :: c_int
  brightness_after :: c_int
  alarm_output :: bool

text \<open>
  \<^verbatim>\<open>if(is_led_on == false) led_on_val = raw_ADC_to_LED_val(photoresist_read(...));\<close>
\<close>

definition sample_light :: "machine \<Rightarrow> c_int \<Rightarrow> machine option" where
  "sample_light m light =
     (if is_led_on m = False
      then (case raw_ADC_to_LED_val light of
              None \<Rightarrow> None
            | Some v \<Rightarrow> Some (m\<lparr>led_on_val := v\<rparr>))
      else Some m)"

text \<open>\<^verbatim>\<open>led_on = is_out_of_level(&angle, &speed);\<close>\<close>

definition check_level :: "parameters \<Rightarrow> machine \<Rightarrow> bno055_vec3_t \<Rightarrow> c_float \<Rightarrow> machine" where
  "check_level P m angle speed =
     (case is_out_of_level P (static_state m) angle speed of
        (out_of_level, s) \<Rightarrow> m\<lparr>static_state := s, led_on := out_of_level\<rparr>)"

definition loop_iteration ::
  "parameters \<Rightarrow> machine \<Rightarrow> tick_input \<Rightarrow> (tick_obs \<times> machine) option" where
  "loop_iteration P m i =
     (let m1 = (led_alarm_handler ^^ alarms_before i) m
      in case sample_light m1 (tick_light i) of
           None \<Rightarrow> None
         | Some m2 \<Rightarrow>
             (let m3 = (led_alarm_handler ^^ alarms_during i) m2;
                  m4 = check_level P m3 (tick_angle i) (tick_speed i)
              in Some (\<lparr>led_was_on = is_led_on m1,
                         light_read = (if is_led_on m1 = False then Some (tick_light i) else None),
                         brightness_before = led_on_val m1,
                         brightness_after = led_on_val m2,
                         alarm_output = led_on m4\<rparr>, m4)))"

text \<open>
  The functions \<open>app_main\<close> calls outside this file's own two, and the trace of a run:
  the calls made, the result lines logged on the exit path, the closing line, and the
  iterations of the loop. \<open>Log f e\<close> is the line reporting that \<open>f\<close> returned \<open>e\<close>.
\<close>

datatype fn = uart_set_baudrate | esp_pm_configure
  | BNO055_init | M20048_init | photoresist_init | led_init
  | bno055_close | nmea_parser_remove_handler | nmea_parser_deinit | photoresist_deinit
  | led_deinit

type_synonym esp_err_t = c_int

definition ESP_OK :: esp_err_t where
  "ESP_OK = 0"

datatype event = Call fn | Log fn esp_err_t | Log_finished | Iteration tick_obs
  | Undefined_behaviour

text \<open>
  \<^verbatim>\<open>while(true)\<close> never ends: the model runs it over a finite prefix of the inputs and
  returns the trace so far. An iteration with no defined result ends the trace.
\<close>

fun main_loop :: "parameters \<Rightarrow> machine \<Rightarrow> tick_input list \<Rightarrow> event list" where
  "main_loop P m [] = []"
| "main_loop P m (i # rest) =
     (case loop_iteration P m i of
        None \<Rightarrow> [Undefined_behaviour]
      | Some (ob, m') \<Rightarrow> Iteration ob # main_loop P m' rest)"

text \<open>The statements after the label \<open>end_prog\<close>; \<open>env f\<close> is the code \<open>f\<close> returns.\<close>

definition end_prog :: "(fn \<Rightarrow> esp_err_t) \<Rightarrow> event list" where
  "end_prog env =
     [Call bno055_close, Log bno055_close (env bno055_close),
      Call nmea_parser_remove_handler,
      Log nmea_parser_remove_handler (env nmea_parser_remove_handler),
      Call nmea_parser_deinit, Log nmea_parser_deinit (env nmea_parser_deinit),
      Call photoresist_deinit, Log photoresist_deinit (env photoresist_deinit),
      Call led_deinit, Log led_deinit (env led_deinit),
      Log_finished]"

definition start_machine :: machine where
  "start_machine =
     \<lparr>static_state = 0, led_toggle = 0, is_led_on = False, led_on = False, led_on_val = 0,
      duty = 0\<rparr>"

definition app_main :: "parameters \<Rightarrow> (fn \<Rightarrow> esp_err_t) \<Rightarrow> tick_input list \<Rightarrow> event list" where
  "app_main P env ticks =
     [Call uart_set_baudrate, Call esp_pm_configure, Call BNO055_init] @
     (if env BNO055_init \<noteq> ESP_OK then end_prog env
      else Call M20048_init #
       (if env M20048_init \<noteq> ESP_OK then end_prog env
        else Call photoresist_init #
         (if env photoresist_init \<noteq> ESP_OK then end_prog env
          else Call led_init #
           (if env led_init \<noteq> ESP_OK then end_prog env
            else main_loop P start_machine ticks))))"

text \<open>Projections of a trace: its loop iterations and the functions it called.\<close>

fun iterations :: "event list \<Rightarrow> tick_obs list" where
  "iterations [] = []"
| "iterations (Iteration ob # es) = ob # iterations es"
| "iterations (e # es) = iterations es"

text \<open>
  \<open>carried v obs\<close>: the first iteration finds the brightness level \<open>v\<close>, and each later
  one finds the level the iteration before it left.
\<close>

fun carried :: "c_int \<Rightarrow> tick_obs list \<Rightarrow> bool" where
  "carried v [] = True"
| "carried v (ob # obs) = (brightness_before ob = v \<and> carried (brightness_after ob) obs)"

fun calls :: "event list \<Rightarrow> fn list" where
  "calls [] = []"
| "calls (Call f # es) = f # calls es"
| "calls (e # es) = calls es"

fun is_deinit :: "fn \<Rightarrow> bool" where
  "is_deinit bno055_close = True"
| "is_deinit nmea_parser_remove_handler = True"
| "is_deinit nmea_parser_deinit = True"
| "is_deinit photoresist_deinit = True"
| "is_deinit led_deinit = True"
| "is_deinit f = False"

definition init_order :: "fn list" where
  "init_order = [BNO055_init, M20048_init, photoresist_init, led_init]"

section \<open>The specification's reading of the loop and of the exit path\<close>

text \<open>
  The no-feedback property as the specification words it: brightness is not recomputed
  on a tick that follows a tick whose alarm output was true, and is unchanged there.
\<close>

fun no_feedback :: "tick_obs list \<Rightarrow> bool" where
  "no_feedback (a # b # rest) =
     ((if alarm_output a
       then light_read b = None \<and> brightness_after b = brightness_before b
       else True) \<and> no_feedback (b # rest))"
| "no_feedback obs = True"

text \<open>
  The exit path as the specification words it: the collaborators whose initialization
  succeeded are deinitialized in reverse acquisition order, the speed source by
  \<open>remove_handler\<close>, then \<open>deinit\<close>.
\<close>

datatype collaborator = Orientation_source | Speed_source | Light_sensor | Alarm_driver

fun init_of :: "collaborator \<Rightarrow> fn" where
  "init_of Orientation_source = BNO055_init"
| "init_of Speed_source = M20048_init"
| "init_of Light_sensor = photoresist_init"
| "init_of Alarm_driver = led_init"

fun deinit_of :: "collaborator \<Rightarrow> fn list" where
  "deinit_of Orientation_source = [bno055_close]"
| "deinit_of Speed_source = [nmea_parser_remove_handler, nmea_parser_deinit]"
| "deinit_of Light_sensor = [photoresist_deinit]"
| "deinit_of Alarm_driver = [led_deinit]"

definition acquisition_order :: "collaborator list" where
  "acquisition_order = [Orientation_source, Speed_source, Light_sensor, Alarm_driver]"

definition initialized :: "(fn \<Rightarrow> esp_err_t) \<Rightarrow> collaborator list" where
  "initialized env = takeWhile (\<lambda>c. env (init_of c) = ESP_OK) acquisition_order"

definition reverse_order_teardown :: "(fn \<Rightarrow> esp_err_t) \<Rightarrow> fn list" where
  "reverse_order_teardown env = concat (map deinit_of (rev (initialized env)))"

section \<open>Inputs of the examples\<close>

text \<open>
  The thresholds and the tilt of the specification's scenario: angle (3, 4) against the
  threshold 4, speed 5 in the band from 2 to 10. \<open>example_libm\<close> gives the value of
  \<^verbatim>\<open>sqrt(pow(x, 2) + pow(y, 2))\<close> at the two angles the examples use, where it is exact
  (5 and 0); no example evaluates it elsewhere.
\<close>

definition example_libm :: "c_float \<Rightarrow> c_float \<Rightarrow> c_float" where
  "example_libm x y =
     (if x = Fin 3 \<and> y = Fin 4 then Fin 5
      else if x = Fin 0 \<and> y = Fin 0 then Fin 0
      else NaN)"

definition example_parameters :: parameters where
  "example_parameters =
     \<lparr>threshold_angle = Fin 4, lower_speed = Fin 2, upper_speed = Fin 10,
      sqrt_sum_pow2 = example_libm\<rparr>"

definition tilted :: bno055_vec3_t where
  "tilted = \<lparr>vec_x = Fin 3, vec_y = Fin 4\<rparr>"

definition flat :: bno055_vec3_t where
  "flat = \<lparr>vec_x = Fin 0, vec_y = Fin 0\<rparr>"

text \<open>
  Four iterations with the device tilted at speed 5. Three timer alarms are handled
  between one iteration and the next, as the alarm count of 2000 at the timer's resolution
  of 10 kHz gives against the loop's delay of 600 ms: the flashing LED is found dark,
  lit, dark by the second, third and fourth iteration.
\<close>

definition example_ticks :: "tick_input list" where
  "example_ticks =
     [\<lparr>alarms_before = 0, tick_light = 150, alarms_during = 0, tick_angle = tilted,
       tick_speed = Fin 5\<rparr>,
      \<lparr>alarms_before = 3, tick_light = 2450, alarms_during = 0, tick_angle = tilted,
       tick_speed = Fin 5\<rparr>,
      \<lparr>alarms_before = 3, tick_light = 2450, alarms_during = 0, tick_angle = tilted,
       tick_speed = Fin 5\<rparr>,
      \<lparr>alarms_before = 3, tick_light = 3098, alarms_during = 0, tick_angle = tilted,
       tick_speed = Fin 5\<rparr>]"

text \<open>Environments: every call succeeds; only \<open>led_init\<close> fails; \<open>M20048_init\<close> and
  \<open>bno055_close\<close> fail.\<close>

definition all_ok :: "fn \<Rightarrow> esp_err_t" where
  "all_ok f = ESP_OK"

definition led_init_fails :: "fn \<Rightarrow> esp_err_t" where
  "led_init_fails f = (if f = led_init then - 1 else ESP_OK)"

definition speed_init_fails :: "fn \<Rightarrow> esp_err_t" where
  "speed_init_fails f = (if f = M20048_init \<or> f = bno055_close then - 1 else ESP_OK)"

section \<open>Properties of the rounding functions\<close>

lemma rne_lower: "\<lfloor>x\<rfloor> \<le> rne x"
  by (simp add: rne_def Let_def)

lemma rne_upper: "rne x \<le> \<lfloor>x\<rfloor> + 1"
  by (simp add: rne_def Let_def)

lemma rne_of_int: "rne (of_int n) = n"
  by (simp add: rne_def Let_def)

lemma rne_mono:
  assumes "x \<le> y"
  shows "rne x \<le> rne y"
proof (cases "\<lfloor>x\<rfloor> = \<lfloor>y\<rfloor>")
  case True
  have "x - of_int \<lfloor>x\<rfloor> \<le> y - of_int \<lfloor>x\<rfloor>"
    using assms by simp
  then show ?thesis
    using True by (auto simp add: rne_def Let_def)
next
  case False
  have "\<lfloor>x\<rfloor> \<le> \<lfloor>y\<rfloor>"
    using assms by (rule floor_mono)
  with False have "\<lfloor>x\<rfloor> + 1 \<le> \<lfloor>y\<rfloor>"
    by simp
  then show ?thesis
    using rne_upper [of x] rne_lower [of y] by linarith
qed

lemma ilog2_bounds:
  assumes "0 < x"
  shows "2 powi ilog2 x \<le> x \<and> x < 2 powi (ilog2 x + 1)"
proof -
  obtain a b where q: "quotient_of x = (a, b)"
    by (cases "quotient_of x")
  have b: "0 < b"
    using q by (rule quotient_of_denom_pos)
  have x: "x = of_int a / of_int b"
    using q by (rule quotient_of_div)
  have a: "0 < a"
    using assms b x by (simp add: zero_less_divide_iff)
  define la lb where "la = bitlen a" and "lb = bitlen b"
  have la1: "1 \<le> la" and lb1: "1 \<le> lb"
    using a b bitlen_eq_zero_iff [of a] bitlen_eq_zero_iff [of b]
      bitlen_nonneg [of a] bitlen_nonneg [of b]
    by (auto simp add: la_def lb_def)
  have "a < 2 ^ nat la" and "2 ^ nat (lb - 1) \<le> b"
    using bitlen_bounds [OF a] bitlen_bounds [OF b] by (simp_all add: la_def lb_def)
  then have "(of_int a :: rat) < of_int (2 ^ nat la)"
    and "(of_int (2 ^ nat (lb - 1)) :: rat) \<le> of_int b"
    by (simp_all only: of_int_less_iff of_int_le_iff)
  then have a_up: "(of_int a :: rat) < 2 powi la" and b_lo: "(2::rat) powi (lb - 1) \<le> of_int b"
    using la1 lb1 by (simp_all add: power_int_def)
  have up: "x < 2 powi (la - lb + 1)"
  proof -
    have "of_int a < (2::rat) powi la" by (rule a_up)
    also have "\<dots> = 2 powi (la - lb + 1) * 2 powi (lb - 1)"
      by (simp add: power_int_add [symmetric])
    also have "\<dots> \<le> 2 powi (la - lb + 1) * of_int b"
      using b_lo by (simp add: mult_left_mono)
    finally show ?thesis
      using b by (simp add: x pos_divide_less_eq)
  qed
  show ?thesis
  proof (cases "2 powi (la - lb) \<le> x")
    case True
    then have "ilog2 x = la - lb"
      by (simp add: ilog2_def q la_def lb_def Let_def)
    with True up show ?thesis by simp
  next
    case False
    then have e: "ilog2 x = la - lb - 1"
      by (simp add: ilog2_def q la_def lb_def Let_def)
    have "2 ^ nat (la - 1) \<le> a" and "b < 2 ^ nat lb"
      using bitlen_bounds [OF a] bitlen_bounds [OF b] by (simp_all add: la_def lb_def)
    then have "(of_int (2 ^ nat (la - 1)) :: rat) \<le> of_int a"
      and "(of_int b :: rat) < of_int (2 ^ nat lb)"
      by (simp_all only: of_int_less_iff of_int_le_iff)
    then have a_lo: "(2::rat) powi (la - 1) \<le> of_int a" and b_up: "(of_int b :: rat) < 2 powi lb"
      using la1 lb1 by (simp_all add: power_int_def)
    have "2 powi (la - lb - 1) * of_int b \<le> (2::rat) powi (la - lb - 1) * 2 powi lb"
      using b_up by (simp add: mult_left_mono)
    also have "\<dots> = 2 powi (la - 1)"
      by (simp add: power_int_add [symmetric])
    also have "\<dots> \<le> of_int a" by (rule a_lo)
    finally have "2 powi (la - lb - 1) \<le> x"
      using b by (simp add: x pos_le_divide_eq)
    with False e show ?thesis by simp
  qed
qed

lemma ilog2_mono:
  assumes "0 < x" and "x \<le> y"
  shows "ilog2 x \<le> ilog2 y"
proof (rule ccontr)
  assume "\<not> ilog2 x \<le> ilog2 y"
  then have "(2::rat) powi (ilog2 y + 1) \<le> 2 powi ilog2 x"
    by (intro power_int_increasing) simp_all
  moreover have "0 < y" using assms by simp
  ultimately show False
    using ilog2_bounds [OF assms(1)] ilog2_bounds [OF \<open>0 < y\<close>] assms(2) by linarith
qed

lemma fl_nonpos:
  assumes "x \<le> 0"
  shows "fl p x \<le> 0"
proof (cases "x = 0")
  case True
  then show ?thesis by (simp add: fl_def)
next
  case False
  define u :: rat where "u = 2 powi (ilog2 \<bar>x\<bar> - int p + 1)"
  have u: "0 < u" by (simp add: u_def)
  have "x / u \<le> 0"
    using assms u by (simp add: divide_le_0_iff)
  then have "rne (x / u) \<le> rne (of_int 0)"
    by (intro rne_mono) simp
  then have "rne (x / u) \<le> 0"
    by (simp only: rne_of_int)
  then have "of_int (rne (x / u)) * u \<le> 0"
    using u by (simp add: mult_le_0_iff)
  then show ?thesis
    using False by (simp add: fl_def Let_def u_def)
qed

text \<open>A positive value rounds to a value of its own binade, or to the next power of two.\<close>

lemma fl_pos_range:
  assumes "0 < x" and "0 < p"
  shows "2 powi ilog2 x \<le> fl p x \<and> fl p x \<le> 2 powi (ilog2 x + 1)"
proof -
  define u :: rat where "u = 2 powi (ilog2 x - int p + 1)"
  have u: "0 < u" by (simp add: u_def)
  have flx: "fl p x = of_int (rne (x / u)) * u"
    using assms by (simp add: fl_def Let_def u_def)
  have hi: "2 powi (ilog2 x + 1) = of_int (2 ^ p) * u"
    by (simp add: u_def power_int_add [symmetric] flip: power_int_of_nat)
  have " x / u \<le> of_int (2 ^ p)"
    using ilog2_bounds [OF assms(1)] u by (simp add: hi pos_divide_le_eq)
  then have "rne (x / u) \<le> rne (of_int (2 ^ p))"
    by (rule rne_mono)
  then have "rne (x / u) \<le> 2 ^ p"
    by (simp only: rne_of_int)
  then have "(of_int (rne (x / u)) :: rat) \<le> of_int (2 ^ p)"
    by (simp only: of_int_le_iff)
  then have upper: "fl p x \<le> 2 powi (ilog2 x + 1)"
    using u by (simp add: flx hi del: of_int_power)
  have lo: "2 powi ilog2 x = of_int (2 ^ (p - 1)) * u"
    using assms(2)
    by (simp add: u_def power_int_add [symmetric] of_nat_diff flip: power_int_of_nat)
  have "of_int (2 ^ (p - 1)) \<le> x / u"
    using ilog2_bounds [OF assms(1)] u by (simp add: lo pos_le_divide_eq)
  then have "rne (of_int (2 ^ (p - 1))) \<le> rne (x / u)"
    by (rule rne_mono)
  then have "2 ^ (p - 1) \<le> rne (x / u)"
    by (simp only: rne_of_int)
  then have "(of_int (2 ^ (p - 1)) :: rat) \<le> of_int (rne (x / u))"
    by (simp only: of_int_le_iff)
  then have lower: "2 powi ilog2 x \<le> fl p x"
    using u by (simp add: flx lo del: of_int_power)
  from lower upper show ?thesis ..
qed

lemma fl_pos:
  assumes "0 < x" and "0 < p"
  shows "0 < fl p x"
proof -
  have "(0::rat) < 2 powi ilog2 x" by simp
  then show ?thesis
    using fl_pos_range [OF assms] by linarith
qed

text \<open>Rounding to nearest is monotone; the proof compares the binades of the operands.\<close>

lemma fl_mono_pos:
  assumes "0 < x" and "x \<le> y" and "0 < p"
  shows "fl p x \<le> fl p y"
proof -
  have y: "0 < y" using assms by simp
  have le: "ilog2 x \<le> ilog2 y"
    using assms(1,2) by (rule ilog2_mono)
  show ?thesis
  proof (cases "ilog2 x = ilog2 y")
    case True
    define u :: rat where "u = 2 powi (ilog2 y - int p + 1)"
    have u: "0 < u" by (simp add: u_def)
    have "x / u \<le> y / u"
      using assms(2) u by (simp add: divide_right_mono)
    then have "rne (x / u) \<le> rne (y / u)"
      by (rule rne_mono)
    then have "(of_int (rne (x / u)) :: rat) * u \<le> of_int (rne (y / u)) * u"
      using u by simp
    then show ?thesis
      using assms(1) y True by (simp add: fl_def Let_def u_def)
  next
    case False
    with le have "ilog2 x + 1 \<le> ilog2 y" by simp
    then have "(2::rat) powi (ilog2 x + 1) \<le> 2 powi ilog2 y"
      by (intro power_int_increasing) simp_all
    then show ?thesis
      using fl_pos_range [OF assms(1,3)] fl_pos_range [OF y assms(3)] by linarith
  qed
qed

text \<open>The result of \<open>fl\<close> lies within half a unit in the last place of its argument.\<close>

lemma rne_error: "\<bar>of_int (rne x) - x\<bar> \<le> 1 / 2"
proof -
  have "of_int \<lfloor>x\<rfloor> \<le> x" and "x < of_int \<lfloor>x\<rfloor> + 1"
    by linarith+
  then show ?thesis
    by (auto simp add: rne_def Let_def abs_le_iff)
qed

lemma fl_error:
  "\<bar>fl p x - x\<bar> \<le> 2 powi (ilog2 \<bar>x\<bar> - int p + 1) / 2"
proof (cases "x = 0")
  case True
  then show ?thesis by (simp add: fl_def)
next
  case False
  define u :: rat where "u = 2 powi (ilog2 \<bar>x\<bar> - int p + 1)"
  have u: "0 < u" by (simp add: u_def)
  have "fl p x - x = (of_int (rne (x / u)) - x / u) * u"
    using False u by (simp add: fl_def Let_def u_def algebra_simps)
  then have "\<bar>fl p x - x\<bar> = \<bar>of_int (rne (x / u)) - x / u\<bar> * u"
    using u by (simp add: abs_mult)
  also have "\<dots> \<le> 1 / 2 * u"
    using rne_error [of "x / u"] u by (intro mult_right_mono) simp_all
  finally show ?thesis
    by (simp add: u_def)
qed

section \<open>Properties of the brightness map\<close>

text \<open>
  The quotient \<open>(raw_ADC_reading - 500) / 2598.0\<close> is zero or lies where binary64 and
  binary32 are normal, so that \<open>fl\<close> rounds it as the hardware does.
\<close>

lemma quotient_normal:
  fixes d :: c_int
  assumes "sint d \<noteq> 0"
  shows "2 powi (- 12) \<le> \<bar>of_int (sint d) / 2598 :: rat\<bar> \<and>
         \<bar>of_int (sint d) / 2598 :: rat\<bar> < 2 powi 20"
proof -
  have "\<bar>sint d\<bar> \<le> 2147483648"
    using sint_ge [of d] sint_lt [of d] by simp
  then have hi: "\<bar>of_int (sint d) :: rat\<bar> \<le> 2147483648"
    by (metis of_int_abs of_int_le_iff of_int_numeral)
  have "1 \<le> \<bar>sint d\<bar>"
    using assms by simp
  then have lo: "1 \<le> \<bar>of_int (sint d) :: rat\<bar>"
    by (metis of_int_abs of_int_le_iff of_int_1)
  show ?thesis
    using lo hi by (simp add: power_int_minus divide_simps)
qed

lemma double_tenth: "to_double (1 / 10) = 3602879701896397 / 36028797018963968"
  by code_simp

lemma double_tenth_bounds:
  "0 < to_double (1 / 10)" "to_double (1 / 10) < 1" "102 \<le> to_double (1 / 10) * 1023"
  by (simp_all add: double_tenth)

lemma float_floor_duty: "to_float (to_float (to_double (1 / 10)) * 1023) = 6704333 / 65536"
  by code_simp

lemma float_1023: "to_float 1023 = 1023"
  by code_simp

lemma float_102: "to_float 102 = 102"
  by code_simp

lemma scaled_2598: "scaled_reading 2598 = 1"
  by code_simp

lemma scaled_259: "scaled_reading 259 < to_double (1 / 10)"
  by code_simp

text \<open>
  C6: the brightness map at the readings the specification names: 500, 100 and 150 give
  the floor duty 102, 3098 gives the full duty 1023, and 2450 gives 767.
\<close>

theorem raw_ADC_to_LED_val_points:
  "raw_ADC_to_LED_val 500 = Some 102 \<and>
   raw_ADC_to_LED_val 100 = Some 102 \<and>
   raw_ADC_to_LED_val 150 = Some 102 \<and>
   raw_ADC_to_LED_val 3098 = Some 1023 \<and>
   raw_ADC_to_LED_val 2450 = Some 767"
proof -
  have "raw_ADC_to_LED_val 500 = Some 102" by code_simp
  moreover have "raw_ADC_to_LED_val 100 = Some 102" by code_simp
  moreover have "raw_ADC_to_LED_val 150 = Some 102" by code_simp
  moreover have "raw_ADC_to_LED_val 3098 = Some 1023" by code_simp
  moreover have "raw_ADC_to_LED_val 2450 = Some 767" by code_simp
  ultimately show ?thesis by simp
qed

lemma floor_floor_duty: "\<lfloor>6704333 / 65536 :: rat\<rfloor> = 102"
  by (simp add: floor_eq_iff)

lemma c_int_of_Some:
  assumes "- 2147483648 \<le> k" and "k \<le> 2147483647"
  shows "c_int_of k = Some (word_of_int k)" and "sint (word_of_int k :: c_int) = k"
proof -
  show "c_int_of k = Some (word_of_int k)"
    using assms by (simp add: c_int_of_def)
  have "signed_take_bit 31 k = k"
    using assms by (intro signed_take_bit_int_eq_self) simp_all
  then show "sint (word_of_int k :: c_int) = k"
    by (simp add: sint_sbintrunc')
qed

text \<open>When the subtraction does not overflow, the map is the scaled fraction, truncated.\<close>

lemma raw_ADC_to_LED_val_unfold:
  assumes "- 2147483148 \<le> sint x"
  shows "raw_ADC_to_LED_val x = float_to_int (to_float (led_fraction (sint x - 500) * 1023))"
proof -
  have "sint x < 2147483648"
    using sint_lt [of x] by simp
  with assms have r: "- 2147483648 \<le> sint x - 500" "sint x - 500 \<le> 2147483647"
    by simp_all
  have "int_sub x 500 = Some (word_of_int (sint x - 500))"
    using c_int_of_Some(1) [OF r] by (simp add: int_sub_def)
  then show ?thesis
    using c_int_of_Some(2) [OF r]
    by (simp add: raw_ADC_to_LED_val_def led_fraction_def scaled_reading_def Let_def)
qed

lemma scaled_reading_nonpos:
  assumes "n \<le> 0"
  shows "scaled_reading n \<le> 0"
proof -
  have "(of_int n :: rat) / 2598 \<le> 0"
    using assms by (simp add: divide_le_0_iff)
  then have "fl 53 (of_int n / 2598) \<le> 0"
    by (rule fl_nonpos)
  then have "fl 24 (fl 53 (of_int n / 2598)) \<le> 0"
    by (rule fl_nonpos)
  then show ?thesis
    by (simp add: scaled_reading_def to_float_def to_double_def)
qed

lemma scaled_reading_mono:
  assumes "0 < n" and "n \<le> m"
  shows "scaled_reading n \<le> scaled_reading m"
proof -
  have pos: "(0::rat) < of_int n / 2598"
    using assms(1) by simp
  have le: "(of_int n :: rat) / 2598 \<le> of_int m / 2598"
    using assms(2) by (simp add: divide_right_mono)
  have le2: "fl 53 (of_int n / 2598) \<le> fl 53 (of_int m / 2598)"
    using pos le by (rule fl_mono_pos) simp
  have pos2: "0 < fl 53 (of_int n / 2598)"
    using pos by (rule fl_pos) simp
  have "fl 24 (fl 53 (of_int n / 2598)) \<le> fl 24 (fl 53 (of_int m / 2598))"
    using pos2 le2 by (rule fl_mono_pos) simp
  then show ?thesis
    by (simp add: scaled_reading_def to_float_def to_double_def)
qed

lemma led_fraction_cases:
  "led_fraction n = to_float (to_double (1 / 10)) \<or>
   (to_double (1 / 10) \<le> led_fraction n \<and> led_fraction n \<le> 1)"
  by (simp add: led_fraction_def Let_def)

lemma led_fraction_low:
  assumes "n \<le> 259"
  shows "led_fraction n = to_float (to_double (1 / 10))"
proof -
  have "scaled_reading n < to_double (1 / 10)"
  proof (cases "0 < n")
    case True
    then have "scaled_reading n \<le> scaled_reading 259"
      using assms by (rule scaled_reading_mono)
    then show ?thesis
      using scaled_259 by linarith
  next
    case False
    then have "scaled_reading n \<le> 0"
      by (intro scaled_reading_nonpos) simp
    then show ?thesis
      using double_tenth_bounds(1) by linarith
  qed
  then show ?thesis
    using double_tenth_bounds(2) by (simp add: led_fraction_def Let_def)
qed

lemma led_fraction_high:
  assumes "2598 \<le> n"
  shows "led_fraction n = 1"
proof -
  have "scaled_reading 2598 \<le> scaled_reading n"
    using assms by (intro scaled_reading_mono) simp_all
  then have "1 \<le> scaled_reading n"
    by (simp add: scaled_2598)
  then show ?thesis
    using double_tenth_bounds(2) by (auto simp add: led_fraction_def Let_def)
qed

lemma duty_range:
  "102 \<le> to_float (led_fraction n * 1023) \<and> to_float (led_fraction n * 1023) \<le> 1023"
  using led_fraction_cases [of n]
proof
  assume "led_fraction n = to_float (to_double (1 / 10))"
  then have "to_float (led_fraction n * 1023) = 6704333 / 65536"
    by (simp only: float_floor_duty)
  then show ?thesis
    by simp
next
  assume a: "to_double (1 / 10) \<le> led_fraction n \<and> led_fraction n \<le> 1"
  then have lo: "102 \<le> led_fraction n * 1023" and hi: "led_fraction n * 1023 \<le> 1023"
    using double_tenth_bounds(3) by simp_all
  have "fl 24 102 \<le> fl 24 (led_fraction n * 1023)"
    using lo by (intro fl_mono_pos) simp_all
  moreover have "fl 24 (led_fraction n * 1023) \<le> fl 24 1023"
    using lo hi by (intro fl_mono_pos) simp_all
  ultimately show ?thesis
    using float_102 float_1023 by (simp add: to_float_def)
qed

lemma float_to_int_duty:
  assumes "102 \<le> y" and "y \<le> 1023"
  shows "float_to_int y = Some (word_of_int \<lfloor>y\<rfloor>)"
    and "sint (word_of_int \<lfloor>y\<rfloor> :: c_int) = \<lfloor>y\<rfloor>"
    and "102 \<le> \<lfloor>y\<rfloor>" and "\<lfloor>y\<rfloor> \<le> 1023"
proof -
  show lo: "102 \<le> \<lfloor>y\<rfloor>"
    using assms(1) by (simp add: le_floor_iff)
  show hi: "\<lfloor>y\<rfloor> \<le> 1023"
    using assms(2) by (simp add: floor_le_iff)
  from lo hi have r: "- 2147483648 \<le> \<lfloor>y\<rfloor>" "\<lfloor>y\<rfloor> \<le> 2147483647"
    by simp_all
  show "float_to_int y = Some (word_of_int \<lfloor>y\<rfloor>)"
    using c_int_of_Some(1) [OF r] assms(1) by (simp add: float_to_int_def)
  show "sint (word_of_int \<lfloor>y\<rfloor> :: c_int) = \<lfloor>y\<rfloor>"
    using r by (rule c_int_of_Some(2))
qed

lemma raw_ADC_to_LED_val_floor:
  assumes "- 2147483148 \<le> sint x"
  shows "raw_ADC_to_LED_val x =
           Some (word_of_int \<lfloor>to_float (led_fraction (sint x - 500) * 1023)\<rfloor>)"
    and "sint (word_of_int \<lfloor>to_float (led_fraction (sint x - 500) * 1023)\<rfloor> :: c_int) =
           \<lfloor>to_float (led_fraction (sint x - 500) * 1023)\<rfloor>"
    and "102 \<le> \<lfloor>to_float (led_fraction (sint x - 500) * 1023)\<rfloor>"
    and "\<lfloor>to_float (led_fraction (sint x - 500) * 1023)\<rfloor> \<le> 1023"
proof -
  let ?d = "to_float (led_fraction (sint x - 500) * 1023)"
  have d: "102 \<le> ?d" "?d \<le> 1023"
    using duty_range [of "sint x - 500"] by simp_all
  show "raw_ADC_to_LED_val x = Some (word_of_int \<lfloor>?d\<rfloor>)"
    using float_to_int_duty(1) [OF d] raw_ADC_to_LED_val_unfold [OF assms] by simp
  show "sint (word_of_int \<lfloor>?d\<rfloor> :: c_int) = \<lfloor>?d\<rfloor>"
    using d by (rule float_to_int_duty(2))
  show "102 \<le> \<lfloor>?d\<rfloor>"
    using d by (rule float_to_int_duty(3))
  show "\<lfloor>?d\<rfloor> \<le> 1023"
    using d by (rule float_to_int_duty(4))
qed

lemma duty_low:
  assumes "n \<le> 259"
  shows "\<lfloor>to_float (led_fraction n * 1023)\<rfloor> = 102"
proof -
  have "to_float (led_fraction n * 1023) = 6704333 / 65536"
    using led_fraction_low [OF assms] by (simp only: float_floor_duty)
  then show ?thesis
    by (simp only: floor_floor_duty)
qed

lemma duty_high:
  assumes "2598 \<le> n"
  shows "\<lfloor>to_float (led_fraction n * 1023)\<rfloor> = 1023"
  using led_fraction_high [OF assms] by (simp add: float_1023)

text \<open>
  Below the floor every reading gives 102, which bounds every result from below. From
  the floor on, the difference is positive and each rounding step keeps the order.
\<close>

lemma duty_mono:
  assumes "n \<le> m"
  shows "\<lfloor>to_float (led_fraction n * 1023)\<rfloor> \<le> \<lfloor>to_float (led_fraction m * 1023)\<rfloor>"
proof (cases "scaled_reading n < to_double (1 / 10)")
  case True
  then have "led_fraction n = to_float (to_double (1 / 10))"
    using double_tenth_bounds(2) by (simp add: led_fraction_def Let_def)
  then have "to_float (led_fraction n * 1023) = 6704333 / 65536"
    by (simp only: float_floor_duty)
  then have "\<lfloor>to_float (led_fraction n * 1023)\<rfloor> = 102"
    by (simp only: floor_floor_duty)
  moreover have "102 \<le> \<lfloor>to_float (led_fraction m * 1023)\<rfloor>"
    using duty_range [of m] by (simp add: le_floor_iff)
  ultimately show ?thesis
    by simp
next
  case False
  then have n_ge: "to_double (1 / 10) \<le> scaled_reading n"
    by simp
  have n_pos: "0 < n"
  proof (rule ccontr)
    assume "\<not> 0 < n"
    then have "scaled_reading n \<le> 0"
      by (intro scaled_reading_nonpos) simp
    with n_ge double_tenth_bounds(1) show False
      by linarith
  qed
  have le: "scaled_reading n \<le> scaled_reading m"
    using n_pos assms by (rule scaled_reading_mono)
  with n_ge have m_ge: "to_double (1 / 10) \<le> scaled_reading m"
    by linarith
  have fn: "led_fraction n = (if 1 < scaled_reading n then 1 else scaled_reading n)"
    using n_ge double_tenth_bounds(2) by (simp add: led_fraction_def Let_def)
  have fm: "led_fraction m = (if 1 < scaled_reading m then 1 else scaled_reading m)"
    using m_ge double_tenth_bounds(2) by (simp add: led_fraction_def Let_def)
  have f_le: "led_fraction n \<le> led_fraction m"
    using le by (simp add: fn fm)
  have f_pos: "0 < led_fraction n"
    using n_ge double_tenth_bounds(1,2) by (simp add: fn)
  have "fl 24 (led_fraction n * 1023) \<le> fl 24 (led_fraction m * 1023)"
    using f_pos f_le by (intro fl_mono_pos) simp_all
  then show ?thesis
    by (simp add: to_float_def floor_mono)
qed

text \<open>
  C10, amended: for every reading from which 500 can be subtracted in \<open>int\<close> (every
  \<open>int\<close> from -2147483148 up), the map returns a duty between 102 and 1023; it is 102 for
  every reading below 760 and 1023 for every reading from 3098 up.
\<close>

theorem raw_ADC_to_LED_val_range:
  assumes "- 2147483148 \<le> sint x"
  shows "\<exists>y. raw_ADC_to_LED_val x = Some y \<and> 102 \<le> sint y \<and> sint y \<le> 1023 \<and>
             (sint x < 760 \<longrightarrow> y = 102) \<and> (3098 \<le> sint x \<longrightarrow> y = 1023)"
proof -
  let ?k = "\<lfloor>to_float (led_fraction (sint x - 500) * 1023)\<rfloor>"
  note f = raw_ADC_to_LED_val_floor [OF assms]
  have "sint x < 760 \<longrightarrow> (word_of_int ?k :: c_int) = 102"
    using duty_low [of "sint x - 500"] by simp
  moreover have "3098 \<le> sint x \<longrightarrow> (word_of_int ?k :: c_int) = 1023"
    using duty_high [of "sint x - 500"] by simp
  ultimately show ?thesis
    using f by simp
qed

theorem raw_ADC_to_LED_val_range_witness:
  "- 2147483148 \<le> sint (- 2147483148 :: c_int) \<and>
   raw_ADC_to_LED_val (- 2147483148) = Some 102"
  using raw_ADC_to_LED_val_range [of "- 2147483148"] by auto

text \<open>
  The claim as stated fails at the least \<open>int\<close>: \<open>raw_ADC_reading - 500\<close> overflows, and
  the map has no defined result.
\<close>

theorem raw_ADC_to_LED_val_overflow:
  "raw_ADC_to_LED_val (- 2147483648) = None"
  by code_simp

text \<open>
  C7, amended: for every pair of readings \<open>a \<le> b\<close> with \<open>a\<close> at least -2147483148 (so
  that \<open>a - 500\<close> does not overflow), both results are defined and the one at \<open>a\<close> is at
  most the one at \<open>b\<close>.
\<close>

theorem raw_ADC_to_LED_val_mono:
  assumes "- 2147483148 \<le> sint a" and "sint a \<le> sint b"
  shows "\<exists>ya yb. raw_ADC_to_LED_val a = Some ya \<and> raw_ADC_to_LED_val b = Some yb \<and>
                 sint ya \<le> sint yb"
proof -
  have b: "- 2147483148 \<le> sint b"
    using assms by simp
  have "sint a - 500 \<le> sint b - 500"
    using assms(2) by simp
  then show ?thesis
    using duty_mono [of "sint a - 500" "sint b - 500"]
      raw_ADC_to_LED_val_floor(1,2) [OF assms(1)] raw_ADC_to_LED_val_floor(1,2) [OF b]
    by simp
qed

theorem raw_ADC_to_LED_val_mono_witness:
  "- 2147483148 \<le> sint (761 :: c_int) \<and> sint (761 :: c_int) \<le> sint (762 :: c_int) \<and>
   (\<exists>ya yb. raw_ADC_to_LED_val 761 = Some ya \<and> raw_ADC_to_LED_val 762 = Some yb \<and>
      sint ya \<le> sint yb)"
  using raw_ADC_to_LED_val_mono [of 761 762] by simp

text \<open>
  The claim as stated fails for the pair -2147483149 and 0: the map is not defined at
  the smaller reading, so there is no value to compare.
\<close>

theorem raw_ADC_to_LED_val_mono_counterexample:
  "sint (- 2147483149 :: c_int) \<le> sint (0 :: c_int) \<and>
   raw_ADC_to_LED_val (- 2147483149) = None \<and> raw_ADC_to_LED_val 0 = Some 102"
proof -
  have "raw_ADC_to_LED_val (- 2147483149) = None" by code_simp
  moreover have "raw_ADC_to_LED_val 0 = Some 102" by code_simp
  ultimately show ?thesis by simp
qed

section \<open>Properties of the level monitor\<close>

lemma speed_band_exclusive:
  "float_le lo hi \<Longrightarrow> \<not> (float_lt v lo \<and> float_gt v hi)"
  by (cases lo; cases hi; cases v; simp add: float_gt_def)

lemma float_lt_not_ge: "float_lt a b \<Longrightarrow> \<not> float_ge a b"
  by (cases a; cases b; simp add: float_ge_def)

lemma is_out_of_level_initial:
  "is_out_of_level P initial_state angle speed =
     (if float_ge (sqrt_sum_pow2 P (vec_x angle) (vec_y angle)) (threshold_angle P) \<and>
         float_ge speed (lower_speed P) \<and> float_le speed (upper_speed P)
      then (True, threshold_angle_and_speed) else (False, initial_state))"
  by (simp add: is_out_of_level_def first_entry_def switch_on_def initial_state_def)

lemma is_out_of_level_zero:
  "is_out_of_level P 0 angle speed = is_out_of_level P initial_state angle speed"
  by (simp add: is_out_of_level_def first_entry_def)

lemma is_out_of_level_alarm:
  "is_out_of_level P threshold_angle_and_speed angle speed =
     (if float_lt (sqrt_sum_pow2 P (vec_x angle) (vec_y angle)) (threshold_angle P) \<and>
         float_lt speed (lower_speed P) \<and> float_gt speed (upper_speed P)
      then (False, initial_state) else (True, threshold_angle_and_speed))"
  by (simp add: is_out_of_level_def first_entry_def switch_on_def initial_state_def
      threshold_angle_and_speed_def)

lemma is_out_of_level_other:
  "s \<noteq> 0 \<Longrightarrow> s \<noteq> initial_state \<Longrightarrow> s \<noteq> threshold_angle_and_speed \<Longrightarrow>
   is_out_of_level P s angle speed = (False, s)"
  by (simp add: is_out_of_level_def first_entry_def switch_on_def)

text \<open>
  C2: from the NORMAL state (\<open>initial_state\<close>, or the zero of the first call),
  \<open>is_out_of_level\<close> returns true and moves to ALARM (\<open>threshold_angle_and_speed\<close>) exactly
  when \<open>combined_angle >= threshold_angle\<close> and \<open>lower_speed <= speed <= upper_speed\<close>; on
  every other input it returns false and the state is NORMAL.
\<close>

theorem normal_to_alarm:
  "is_out_of_level P initial_state angle speed =
     (if float_le (threshold_angle P) (sqrt_sum_pow2 P (vec_x angle) (vec_y angle)) \<and>
         float_le (lower_speed P) speed \<and> float_le speed (upper_speed P)
      then (True, threshold_angle_and_speed) else (False, initial_state)) \<and>
   is_out_of_level P 0 angle speed = is_out_of_level P initial_state angle speed"
  by (simp add: is_out_of_level_zero is_out_of_level_initial float_ge_def)

text \<open>
  C3: in the ALARM state, \<open>is_out_of_level\<close> returns false and moves to NORMAL exactly when
  \<open>combined_angle < threshold_angle\<close> and \<open>speed < lower_speed\<close> and \<open>speed > upper_speed\<close>; on
  every other input it returns true and the state stays ALARM.
\<close>

theorem alarm_to_normal:
  "is_out_of_level P threshold_angle_and_speed angle speed =
     (if float_lt (sqrt_sum_pow2 P (vec_x angle) (vec_y angle)) (threshold_angle P) \<and>
         float_lt speed (lower_speed P) \<and> float_lt (upper_speed P) speed
      then (False, initial_state) else (True, threshold_angle_and_speed))"
  by (simp add: is_out_of_level_alarm float_gt_def)

text \<open>
  C1: when \<open>lower_speed <= upper_speed\<close>, every call made from the ALARM state, whatever
  the angles and speeds, finds the state ALARM, returns true and leaves the state ALARM:
  the recovery condition cannot hold, and the alarm never clears.
\<close>

theorem alarm_is_sticky:
  assumes "float_le (lower_speed P) (upper_speed P)"
  shows "level_calls P threshold_angle_and_speed inputs =
           map (\<lambda>i. \<lparr>entry_state = threshold_angle_and_speed, returned = True,
                       exit_state = threshold_angle_and_speed\<rparr>) inputs"
proof (induction inputs)
  case Nil
  show ?case by simp
next
  case (Cons i inputs)
  obtain angle speed where i: "i = (angle, speed)"
    by (cases i)
  have "is_out_of_level P threshold_angle_and_speed angle speed =
          (True, threshold_angle_and_speed)"
    using speed_band_exclusive [OF assms, of speed] by (simp add: is_out_of_level_alarm)
  then show ?case
    using Cons.IH by (simp add: i)
qed

theorem alarm_is_sticky_witness:
  "float_le (lower_speed example_parameters) (upper_speed example_parameters) \<and>
   level_calls example_parameters threshold_angle_and_speed
     [(flat, Fin 0), (flat, Fin 50), (tilted, NaN)] =
     [\<lparr>entry_state = 2, returned = True, exit_state = 2\<rparr>,
      \<lparr>entry_state = 2, returned = True, exit_state = 2\<rparr>,
      \<lparr>entry_state = 2, returned = True, exit_state = 2\<rparr>]"
  using alarm_is_sticky [of example_parameters "[(flat, Fin 0), (flat, Fin 50), (tilted, NaN)]"]
  by (simp add: example_parameters_def threshold_angle_and_speed_def)

text \<open>
  C8: for every state and every angle and speed, a second call with the same inputs, made
  from the state the first call left, returns the same value and leaves the same state.
\<close>

theorem is_out_of_level_idempotent:
  "is_out_of_level P (snd (is_out_of_level P s angle speed)) angle speed =
     is_out_of_level P s angle speed"
proof -
  consider "s = 0" | "s = initial_state" | "s = threshold_angle_and_speed"
    | "s \<noteq> 0" "s \<noteq> initial_state" "s \<noteq> threshold_angle_and_speed"
    by blast
  then show ?thesis
  proof cases
    case 1
    then show ?thesis
      using float_lt_not_ge [of "sqrt_sum_pow2 P (vec_x angle) (vec_y angle)" "threshold_angle P"]
      by (auto simp add: is_out_of_level_zero is_out_of_level_initial is_out_of_level_alarm)
  next
    case 2
    then show ?thesis
      using float_lt_not_ge [of "sqrt_sum_pow2 P (vec_x angle) (vec_y angle)" "threshold_angle P"]
      by (auto simp add: is_out_of_level_initial is_out_of_level_alarm)
  next
    case 3
    then show ?thesis
      using float_lt_not_ge [of "sqrt_sum_pow2 P (vec_x angle) (vec_y angle)" "threshold_angle P"]
      by (auto simp add: is_out_of_level_initial is_out_of_level_alarm)
  next
    case 4
    then show ?thesis
      by (simp add: is_out_of_level_other)
  qed
qed

lemma level_calls_invariant:
  assumes "s = 0 \<or> s = initial_state \<or> s = threshold_angle_and_speed"
  shows "\<forall>c \<in> set (level_calls P s inputs).
           switch_on (first_entry (entry_state c)) \<noteq> Case_default \<and>
           (exit_state c = initial_state \<or> exit_state c = threshold_angle_and_speed) \<and>
           returned c = (exit_state c = threshold_angle_and_speed)"
  using assms
proof (induction inputs arbitrary: s)
  case Nil
  show ?case by simp
next
  case (Cons i inputs)
  obtain angle speed where i: "i = (angle, speed)"
    by (cases i)
  obtain b s' where r: "is_out_of_level P s angle speed = (b, s')"
    by (cases "is_out_of_level P s angle speed")
  have ne: "initial_state \<noteq> threshold_angle_and_speed"
    by (simp add: initial_state_def threshold_angle_and_speed_def)
  have step: "(s' = initial_state \<or> s' = threshold_angle_and_speed) \<and>
              b = (s' = threshold_angle_and_speed)"
    using Cons.prems r ne
    by (auto simp add: is_out_of_level_zero is_out_of_level_initial is_out_of_level_alarm
        split: if_splits)
  have entry: "switch_on (first_entry s) \<noteq> Case_default"
    using Cons.prems by (auto simp add: switch_on_def first_entry_def)
  have "s' = 0 \<or> s' = initial_state \<or> s' = threshold_angle_and_speed"
    using step by blast
  then show ?case
    using Cons.IH [of s'] step entry by (simp add: i r)
qed

text \<open>
  C9: in every sequence of calls that starts from the zero-initialized state, each call
  takes a case of the switch other than the default, leaves the state 1 (\<open>initial_state\<close>)
  or 2 (\<open>threshold_angle_and_speed\<close>), and returns true exactly when it leaves the state 2.
\<close>

theorem state_is_enum_value:
  "\<forall>c \<in> set (level_calls P 0 inputs).
     switch_on (first_entry (entry_state c)) \<noteq> Case_default \<and>
     (exit_state c = 1 \<or> exit_state c = 2) \<and>
     returned c = (exit_state c = 2)"
  using level_calls_invariant [of 0 P inputs]
  by (simp add: initial_state_def threshold_angle_and_speed_def)

theorem state_is_enum_value_witness:
  "level_calls example_parameters 0 [(flat, Fin 5), (tilted, Fin 5), (flat, Fin 0)] =
     [\<lparr>entry_state = 0, returned = False, exit_state = 1\<rparr>,
      \<lparr>entry_state = 1, returned = True, exit_state = 2\<rparr>,
      \<lparr>entry_state = 2, returned = True, exit_state = 2\<rparr>]"
  using state_is_enum_value [of example_parameters "[(flat, Fin 5), (tilted, Fin 5), (flat, Fin 0)]"]
  by (simp add: example_parameters_def is_out_of_level_def first_entry_def switch_on_def
      initial_state_def threshold_angle_and_speed_def example_libm_def flat_def tilted_def
      float_ge_def float_gt_def)

section \<open>Properties of the control loop and of the exit path\<close>

lemma example_run:
  "app_main example_parameters all_ok example_ticks =
     [Call uart_set_baudrate, Call esp_pm_configure, Call BNO055_init,
      Call M20048_init, Call photoresist_init, Call led_init,
      Iteration
      \<lparr>led_was_on = False, light_read = Some 150, brightness_before = 0,
       brightness_after = 102, alarm_output = True\<rparr>,
      Iteration
      \<lparr>led_was_on = False, light_read = Some 2450, brightness_before = 102,
       brightness_after = 767, alarm_output = True\<rparr>,
      Iteration
      \<lparr>led_was_on = True, light_read = None, brightness_before = 767,
       brightness_after = 767, alarm_output = True\<rparr>,
      Iteration
      \<lparr>led_was_on = False, light_read = Some 3098, brightness_before = 767,
       brightness_after = 1023, alarm_output = True\<rparr>]"
  by code_simp

lemma sample_light_cases:
  assumes "sample_light m light = Some m'"
  shows "if is_led_on m then led_on_val m' = led_on_val m
         else raw_ADC_to_LED_val light = Some (led_on_val m')"
  using assms by (auto simp add: sample_light_def split: option.splits if_splits)

lemma main_loop_gated:
  "\<forall>ob \<in> set (iterations (main_loop P m ticks)).
     (if led_was_on ob
      then light_read ob = None \<and> brightness_after ob = brightness_before ob
      else \<exists>v. light_read ob = Some v \<and> raw_ADC_to_LED_val v = Some (brightness_after ob))"
proof (induction ticks arbitrary: m)
  case Nil
  show ?case by simp
next
  case (Cons i ticks)
  show ?case
  proof (cases "loop_iteration P m i")
    case None
    then show ?thesis by simp
  next
    case (Some r)
    obtain ob m' where r: "r = (ob, m')"
      by (cases r)
    define m1 where "m1 = (led_alarm_handler ^^ alarms_before i) m"
    from Some r obtain m2 where m2: "sample_light m1 (tick_light i) = Some m2"
      and ob: "ob = \<lparr>led_was_on = is_led_on m1,
                      light_read = (if is_led_on m1 = False then Some (tick_light i) else None),
                      brightness_before = led_on_val m1,
                      brightness_after = led_on_val m2,
                      alarm_output = led_on (check_level P ((led_alarm_handler ^^ alarms_during i) m2)
                        (tick_angle i) (tick_speed i))\<rparr>"
      by (auto simp add: loop_iteration_def Let_def m1_def split: option.splits)
    have "if led_was_on ob
          then light_read ob = None \<and> brightness_after ob = brightness_before ob
          else \<exists>v. light_read ob = Some v \<and> raw_ADC_to_LED_val v = Some (brightness_after ob)"
      using sample_light_cases [OF m2] by (simp add: ob)
    then show ?thesis
      using Cons.IH [of m'] Some r by simp
  qed
qed

lemma iterations_end_prog: "iterations (end_prog env) = []"
  by (simp add: end_prog_def)

lemma led_alarm_handler_val: "led_on_val (led_alarm_handler m) = led_on_val m"
  by (simp add: led_alarm_handler_def Let_def)

lemma led_alarm_handlers_val: "led_on_val ((led_alarm_handler ^^ n) m) = led_on_val m"
  by (induction n) (simp_all add: led_alarm_handler_val)

lemma check_level_val: "led_on_val (check_level P m angle speed) = led_on_val m"
  by (simp add: check_level_def split: prod.splits)

lemma loop_iteration_val:
  assumes "loop_iteration P m i = Some (ob, m')"
  shows "brightness_before ob = led_on_val m \<and> brightness_after ob = led_on_val m'"
  using assms
  by (auto simp add: loop_iteration_def Let_def led_alarm_handlers_val check_level_val
      split: option.splits)

lemma main_loop_carried: "carried (led_on_val m) (iterations (main_loop P m ticks))"
proof (induction ticks arbitrary: m)
  case Nil
  show ?case by simp
next
  case (Cons i ticks)
  show ?case
  proof (cases "loop_iteration P m i")
    case None
    then show ?thesis by simp
  next
    case (Some r)
    obtain ob m' where r: "r = (ob, m')"
      by (cases r)
    have "brightness_before ob = led_on_val m \<and> brightness_after ob = led_on_val m'"
      using Some r by (intro loop_iteration_val) simp
    then show ?thesis
      using Cons.IH [of m'] Some r by simp
  qed
qed

text \<open>
  C4, amended: in every iteration of the control loop, the brightness level is recomputed
  from a fresh light reading exactly when \<open>is_led_on\<close>, the flag the alarm timer callback
  writes, reads false at the iteration's test; when it reads true, no reading is taken
  and the brightness level is unchanged. Between iterations the level is carried over.
\<close>

theorem brightness_gated_by_led_flag:
  "(\<forall>ob \<in> set (iterations (app_main P env ticks)).
      (if led_was_on ob
       then light_read ob = None \<and> brightness_after ob = brightness_before ob
       else \<exists>v. light_read ob = Some v \<and> raw_ADC_to_LED_val v = Some (brightness_after ob))) \<and>
   carried 0 (iterations (app_main P env ticks))"
  using main_loop_gated [of P start_machine ticks] main_loop_carried [of start_machine P ticks]
  by (simp add: app_main_def iterations_end_prog start_machine_def)

theorem brightness_gated_by_led_flag_witness:
  "iterations (app_main example_parameters all_ok (take 3 example_ticks)) =
     [\<lparr>led_was_on = False, light_read = Some 150, brightness_before = 0,
       brightness_after = 102, alarm_output = True\<rparr>,
      \<lparr>led_was_on = False, light_read = Some 2450, brightness_before = 102,
       brightness_after = 767, alarm_output = True\<rparr>,
      \<lparr>led_was_on = True, light_read = None, brightness_before = 767,
       brightness_after = 767, alarm_output = True\<rparr>]"
proof -
  have "iterations (app_main example_parameters all_ok (take 3 example_ticks)) =
     [\<lparr>led_was_on = False, light_read = Some 150, brightness_before = 0,
       brightness_after = 102, alarm_output = True\<rparr>,
      \<lparr>led_was_on = False, light_read = Some 2450, brightness_before = 102,
       brightness_after = 767, alarm_output = True\<rparr>,
      \<lparr>led_was_on = True, light_read = None, brightness_before = 767,
       brightness_after = 767, alarm_output = True\<rparr>]"
    by code_simp
  then show ?thesis
    using brightness_gated_by_led_flag [of example_parameters all_ok "take 3 example_ticks"]
    by simp
qed

text \<open>
  The claim as stated fails on the run \<open>example_ticks\<close>. The alarm output of the first
  iteration is true, yet the second takes the reading 2450 and raises the brightness
  level from 102 to 767. In the third iteration the alarm output is true and the LED
  flag reads true, yet the fourth, which finds the flashing LED dark, takes the reading
  3098 and raises the level to 1023.
\<close>

theorem recomputed_after_alarm_tick:
  "iterations (app_main example_parameters all_ok example_ticks) =
     [\<lparr>led_was_on = False, light_read = Some 150, brightness_before = 0,
       brightness_after = 102, alarm_output = True\<rparr>,
      \<lparr>led_was_on = False, light_read = Some 2450, brightness_before = 102,
       brightness_after = 767, alarm_output = True\<rparr>,
      \<lparr>led_was_on = True, light_read = None, brightness_before = 767,
       brightness_after = 767, alarm_output = True\<rparr>,
      \<lparr>led_was_on = False, light_read = Some 3098, brightness_before = 767,
       brightness_after = 1023, alarm_output = True\<rparr>] \<and>
   \<not> no_feedback (iterations (app_main example_parameters all_ok example_ticks))"
  by (simp add: example_run)

text \<open>
  C5, amended: if the initialization of any collaborator fails, the loop is never
  entered: the run makes the initialization calls up to the first that fails and then
  takes the one exit path, which calls \<open>bno055_close\<close>, \<open>nmea_parser_remove_handler\<close>,
  \<open>nmea_parser_deinit\<close>, \<open>photoresist_deinit\<close> and \<open>led_deinit\<close>, in this order (the order
  of acquisition), logs the result of each whatever it is, and ends with the closing
  line.
\<close>

theorem init_failure_unwinds:
  assumes "env BNO055_init \<noteq> ESP_OK \<or> env M20048_init \<noteq> ESP_OK \<or>
           env photoresist_init \<noteq> ESP_OK \<or> env led_init \<noteq> ESP_OK"
  shows "app_main P env ticks =
           map Call ([uart_set_baudrate, esp_pm_configure] @
             take (Suc (length (takeWhile (\<lambda>f. env f = ESP_OK) init_order))) init_order) @
           [Call bno055_close, Log bno055_close (env bno055_close),
            Call nmea_parser_remove_handler,
            Log nmea_parser_remove_handler (env nmea_parser_remove_handler),
            Call nmea_parser_deinit, Log nmea_parser_deinit (env nmea_parser_deinit),
            Call photoresist_deinit, Log photoresist_deinit (env photoresist_deinit),
            Call led_deinit, Log led_deinit (env led_deinit),
            Log_finished] \<and>
         iterations (app_main P env ticks) = []"
  using assms by (auto simp add: app_main_def end_prog_def init_order_def)

theorem init_failure_unwinds_witness:
  "app_main example_parameters speed_init_fails example_ticks =
     [Call uart_set_baudrate, Call esp_pm_configure, Call BNO055_init, Call M20048_init,
      Call bno055_close, Log bno055_close (- 1),
      Call nmea_parser_remove_handler, Log nmea_parser_remove_handler 0,
      Call nmea_parser_deinit, Log nmea_parser_deinit 0,
      Call photoresist_deinit, Log photoresist_deinit 0,
      Call led_deinit, Log led_deinit 0,
      Log_finished]"
  using init_failure_unwinds [of speed_init_fails example_parameters example_ticks]
  by (simp add: speed_init_fails_def init_order_def ESP_OK_def)

text \<open>
  The claim as stated fails when only \<open>led_init\<close> fails: three collaborators are
  initialized, and the exit path deinitializes them first to last, and calls
  \<open>led_deinit\<close> as well; the reverse order would start with \<open>photoresist_deinit\<close> and end
  with \<open>bno055_close\<close>.
\<close>

theorem teardown_not_reversed:
  "filter is_deinit (calls (app_main example_parameters led_init_fails example_ticks)) =
     [bno055_close, nmea_parser_remove_handler, nmea_parser_deinit, photoresist_deinit,
      led_deinit] \<and>
   reverse_order_teardown led_init_fails =
     [photoresist_deinit, nmea_parser_remove_handler, nmea_parser_deinit, bno055_close]"
  by (simp add: app_main_def end_prog_def led_init_fails_def ESP_OK_def
      reverse_order_teardown_def initialized_def acquisition_order_def)

end
